theory Spec2Isabelle
  imports Main "HOL-Library.AList" "HOL-Library.Char_ord" "HOL-Library.List_Lexorder"
begin

section \<open>Mimeo: a shallow embedding of Mimeo.py\<close>

text \<open>
  Python strings are modelled as \<^typ>\<open>string\<close>, one \<^typ>\<open>char\<close> per code point (code
  points below 256). A Python \<open>dict\<close> is an association list in insertion order with
  distinct keys: \<^const>\<open>map_of\<close> reads a key, \<^const>\<open>AList.update\<close> is \<open>d[k] = v\<close> (an
  existing key keeps its position, a new key goes last) and \<^const>\<open>AList.delete\<close> is
  \<open>del d[k]\<close>. Exceptions are values of the type \<open>error\<close>.
\<close>

datatype error = ValueError | TypeError | AttributeError

subsection \<open>String methods of Python used by the module\<close>

definition py_isspace :: "char \<Rightarrow> bool" where
  "py_isspace c \<longleftrightarrow> c \<in> set [CHR 0x09, CHR 0x0A, CHR 0x0B, CHR 0x0C, CHR 0x0D,
     CHR 0x1C, CHR 0x1D, CHR 0x1E, CHR 0x1F, CHR 0x20, CHR 0x85, CHR 0xA0]"

definition lstrip :: "string \<Rightarrow> string" where
  "lstrip s = dropWhile py_isspace s"

definition rstrip :: "string \<Rightarrow> string" where
  "rstrip s = rev (dropWhile py_isspace (rev s))"

definition strip :: "string \<Rightarrow> string" where
  "strip s = lstrip (rstrip s)"

text \<open>\<open>s.split(c, 1)\<close>: the parts before and after the first \<open>c\<close>; \<open>None\<close> when
  \<open>c\<close> does not occur (the list then has one element and unpacking it into two names
  raises ValueError).\<close>

definition split1 :: "char \<Rightarrow> string \<Rightarrow> (string \<times> string) option" where
  "split1 c s = (if c \<in> set s
     then Some (takeWhile (\<lambda>x. x \<noteq> c) s, tl (dropWhile (\<lambda>x. x \<noteq> c) s))
     else None)"

text \<open>\<open>s.rsplit(c, 1)\<close>: the parts before and after the last \<open>c\<close>.\<close>

definition rsplit1 :: "char \<Rightarrow> string \<Rightarrow> (string \<times> string) option" where
  "rsplit1 c s = (if c \<in> set s
     then Some (rev (tl (dropWhile (\<lambda>x. x \<noteq> c) (rev s))), rev (takeWhile (\<lambda>x. x \<noteq> c) (rev s)))
     else None)"

text \<open>\<open>s.split(c)\<close>: all the fields between occurrences of \<open>c\<close>.\<close>

fun split_all :: "char \<Rightarrow> string \<Rightarrow> string list" where
  "split_all c [] = [[]]"
| "split_all c (x # xs) =
     (if x = c then [] # split_all c xs
      else (case split_all c xs of [] \<Rightarrow> [[x]] | w # ws \<Rightarrow> (x # w) # ws))"

text \<open>\<open>sep.join(xs)\<close>.\<close>

fun join :: "string \<Rightarrow> string list \<Rightarrow> string" where
  "join sep [] = []"
| "join sep [x] = x"
| "join sep (x # y # ys) = x @ sep @ join sep (y # ys)"

text \<open>\<open>sub in s\<close> on strings, and \<open>s.replace('%%', '')\<close> (left to right, without
  overlap).\<close>

fun str_contains :: "string \<Rightarrow> string \<Rightarrow> bool" where
  "str_contains sub [] = (sub = [])"
| "str_contains sub (x # xs) = (take (length sub) (x # xs) = sub \<or> str_contains sub xs)"

fun remove_percent_pairs :: "string \<Rightarrow> string" where
  "remove_percent_pairs (a # b # s) =
     (if a = CHR ''%'' \<and> b = CHR ''%'' then remove_percent_pairs s
      else a # remove_percent_pairs (b # s))"
| "remove_percent_pairs s = s"

text \<open>\<open>os.path.basename\<close>, \<open>os.path.dirname\<close> and \<open>os.path.join\<close> of two
  components, as \<open>posixpath\<close> defines them.\<close>

definition basename :: "string \<Rightarrow> string" where
  "basename p = rev (takeWhile (\<lambda>x. x \<noteq> CHR ''/'') (rev p))"

definition dirname :: "string \<Rightarrow> string" where
  "dirname p =
     (let head = rev (dropWhile (\<lambda>x. x \<noteq> CHR ''/'') (rev p))
      in if head \<noteq> [] \<and> list_ex (\<lambda>x. x \<noteq> CHR ''/'') head
         then rev (dropWhile (\<lambda>x. x = CHR ''/'') (rev head)) else head)"

definition path_join :: "string \<Rightarrow> string \<Rightarrow> string" where
  "path_join a b =
     (if b \<noteq> [] \<and> hd b = CHR ''/'' then b
      else if a = [] \<or> last a = CHR ''/'' then a @ b
      else a @ ''/'' @ b)"

text \<open>Reading a text file: universal newlines turn \<open>\r\n\<close> and \<open>\r\<close> into \<open>\n\<close>, and
  iterating over the file gives its lines, each with its terminating \<open>\n\<close>.\<close>

fun universal_newlines :: "string \<Rightarrow> string" where
  "universal_newlines (a # b # s) =
     (if a = CHR 0x0D \<and> b = CHR 0x0A then CHR 0x0A # universal_newlines s
      else if a = CHR 0x0D then CHR 0x0A # universal_newlines (b # s)
      else a # universal_newlines (b # s))"
| "universal_newlines [a] = (if a = CHR 0x0D then [CHR 0x0A] else [a])"
| "universal_newlines [] = []"

fun readlines :: "string \<Rightarrow> string list" where
  "readlines [] = []"
| "readlines (c # cs) =
     (if c = CHR 0x0A then [c] # readlines cs
      else (case readlines cs of [] \<Rightarrow> [[c]] | l # ls \<Rightarrow> (c # l) # ls))"

subsection \<open>Association tables: mimeapps.list parsing and saving\<close>

text \<open>
  An association table is an ordered dictionary from section names to dictionaries from
  keys (MIME-types) to lists of desktop file names. The section that is current before
  the first header of a file is Python's \<open>None\<close>, so a section name is a
  \<^typ>\<open>string option\<close>.
\<close>

type_synonym entries = "(string \<times> string list) list"
type_synonym assocs = "(string option \<times> entries) list"

definition ADDED_ASSOCIATIONS_SECTION :: string where
  "ADDED_ASSOCIATIONS_SECTION = ''Added Associations''"

definition REMOVED_ASSOCIATIONS_SECTION :: string where
  "REMOVED_ASSOCIATIONS_SECTION = ''Removed Associations''"

definition DEFAULT_APPLICATIONS_SECTION :: string where
  "DEFAULT_APPLICATIONS_SECTION = ''Default Applications''"

definition MIME_CACHE_SECTION :: string where
  "MIME_CACHE_SECTION = ''MIME Cache''"

definition MIMEINFO_CACHE_FILE :: string where
  "MIMEINFO_CACHE_FILE = ''mimeinfo.cache''"

text \<open>The branches of the loop body of \<open>parse_associations\<close>, by the kind of line:
  skipped (blank or comment), a section header, an entry \<open>key=values\<close> with the values
  it assigns, or a line without \<open>=\<close>, which is logged and skipped.\<close>

datatype line_kind = Skipped | Header string | Entry string "string list" | Malformed

definition parse_desktops :: "string \<Rightarrow> string list" where
  "parse_desktops desktops =
     map (\<lambda>d. basename (strip d)) (filter (\<lambda>d. d \<noteq> []) (split_all CHR '';'' desktops))"

definition classify_line :: "string \<Rightarrow> line_kind" where
  "classify_line raw =
     (let line = strip raw in
      if line = [] \<or> hd line = CHR ''#'' then Skipped
      else if hd line = CHR ''['' \<and> last line = CHR '']'' then Header (butlast (tl line))
      else (case split1 CHR ''='' line of
              None \<Rightarrow> Malformed
            | Some (mimetype, desktops) \<Rightarrow> Entry (rstrip mimetype) (parse_desktops desktops)))"

text \<open>\<open>associations[section][mimetype] = desktops\<close>, and on KeyError
  \<open>associations[section] = {mimetype : desktops}\<close>.\<close>

definition set_entry :: "assocs \<Rightarrow> string option \<Rightarrow> string \<Rightarrow> string list \<Rightarrow> assocs" where
  "set_entry associations section mimetype desktops =
     (case map_of associations section of
        Some entries \<Rightarrow> AList.update section (AList.update mimetype desktops entries) associations
      | None \<Rightarrow> AList.update section [(mimetype, desktops)] associations)"

fun parse_line :: "string option \<times> assocs \<Rightarrow> string \<Rightarrow> string option \<times> assocs" where
  "parse_line (section, associations) raw =
     (case classify_line raw of
        Skipped \<Rightarrow> (section, associations)
      | Header s \<Rightarrow> (Some s, associations)
      | Malformed \<Rightarrow> (section, associations)
      | Entry mimetype desktops \<Rightarrow>
          (if desktops \<noteq> [] then (section, set_entry associations section mimetype desktops)
           else (section, associations)))"

definition parse_associations :: "string list \<Rightarrow> assocs" where
  "parse_associations lines = snd (foldl parse_line (None, []) lines)"

definition remove_empty_associations :: "assocs \<Rightarrow> assocs" where
  "remove_empty_associations assocs =
     filter (\<lambda>(section, entries). entries \<noteq> [])
       (map (\<lambda>(section, entries). (section, filter (\<lambda>(key, values). values \<noteq> []) entries)) assocs)"

text \<open>The file system: the text of each file that exists, by path.\<close>

type_synonym files = "string \<Rightarrow> string option"

definition load_associations :: "files \<Rightarrow> string \<Rightarrow> assocs" where
  "load_associations fs path =
     (case fs path of
        Some text \<Rightarrow> parse_associations (readlines (universal_newlines text))
      | None \<Rightarrow> [])"

text \<open>\<open>'[{}]\n'.format(section)\<close>: the section \<open>None\<close> is formatted as the word
  \<open>None\<close>.\<close>

definition format_section :: "string option \<Rightarrow> string" where
  "format_section section = ''['' @ (case section of None \<Rightarrow> ''None'' | Some s \<Rightarrow> s) @ '']'' @ [CHR 0x0A]"

definition format_entry :: "string \<times> string list \<Rightarrow> string" where
  "format_entry kv = fst kv @ ''='' @ join '';'' (snd kv) @ '';'' @ [CHR 0x0A]"

text \<open>The strings that the loop of \<open>save_associations\<close> writes for one section: the
  header, then the entries sorted by key.\<close>

definition section_writes :: "string option \<times> entries \<Rightarrow> string list" where
  "section_writes se =
     (if snd se \<noteq> []
      then format_section (fst se) #
           map format_entry (filter (\<lambda>kv. snd kv \<noteq> []) (sort_key fst (snd se)))
      else [])"

text \<open>All the strings \<open>save_associations\<close> writes for a pruned, non-empty table. The
  newline that the comment announces after each section stands after the loop, so it is
  written once, when the table has more than one section.\<close>

definition associations_writes :: "assocs \<Rightarrow> string list" where
  "associations_writes assocs =
     concat (map section_writes assocs) @ (if length assocs > 1 then [[CHR 0x0A]] else [])"

definition associations_text :: "assocs \<Rightarrow> string" where
  "associations_text assocs = concat (associations_writes assocs)"

text \<open>\<open>save_associations\<close> returns the file system after the call and the table as
  pruned in place; an empty table removes the file. Failures of the operating system
  (a directory that cannot be made, a file that cannot be written) are not modelled.\<close>

definition save_associations :: "files \<Rightarrow> string \<Rightarrow> assocs \<Rightarrow> files \<times> assocs" where
  "save_associations fs path assocs =
     (let assocs' = remove_empty_associations assocs
      in if assocs' \<noteq> [] then (fs(path \<mapsto> associations_text assocs'), assocs')
         else (fs(path := None), assocs'))"

definition iterate_associations :: "assocs \<Rightarrow> string \<Rightarrow> string \<Rightarrow> string list" where
  "iterate_associations assocs section key =
     (case map_of assocs (Some section) of
        None \<Rightarrow> []
      | Some entries \<Rightarrow> (case map_of entries key of None \<Rightarrow> [] | Some values \<Rightarrow> values))"

definition add_association :: "assocs \<Rightarrow> string \<Rightarrow> string \<Rightarrow> string \<Rightarrow> assocs" where
  "add_association assocs section key value =
     (if section \<noteq> [] \<and> key \<noteq> [] \<and> value \<noteq> [] then
        (case map_of assocs (Some section) of
           None \<Rightarrow> AList.update (Some section) [(key, [value])] assocs
         | Some entries \<Rightarrow>
             (case map_of entries key of
                None \<Rightarrow> AList.update (Some section) (AList.update key [value] entries) assocs
              | Some values \<Rightarrow>
                  AList.update (Some section)
                    (AList.update key (value # filter (\<lambda>x. x \<noteq> value) values) entries) assocs))
      else assocs)"

text \<open>\<open>remove_association\<close>: \<open>value\<close> is optional (\<open>None\<close> by default); \<open>not value\<close>
  holds for \<open>None\<close> and for the empty string. KeyError (no such section or key) and
  ValueError (\<open>list.remove\<close> of an absent value) are caught and leave the table as it
  is.\<close>

definition remove_association :: "assocs \<Rightarrow> string \<Rightarrow> string \<Rightarrow> string option \<Rightarrow> assocs" where
  "remove_association assocs section key value =
     (if assocs \<noteq> [] \<and> section \<noteq> [] \<and> key \<noteq> [] then
        (case map_of assocs (Some section) of
           None \<Rightarrow> assocs
         | Some entries \<Rightarrow>
             (case map_of entries key of
                None \<Rightarrow> assocs
              | Some values \<Rightarrow>
                  (case value of
                     None \<Rightarrow> AList.update (Some section) (AList.delete key entries) assocs
                   | Some v \<Rightarrow>
                       if v = [] then AList.update (Some section) (AList.delete key entries) assocs
                       else if v \<notin> set values then assocs
                       else if remove1 v values = []
                         then AList.update (Some section) (AList.delete key entries) assocs
                         else AList.update (Some section)
                                (AList.update key (remove1 v values) entries) assocs)))
      else assocs)"

text \<open>\<open>table[section][key]\<close>, or \<open>None\<close> where the section or the key is absent.\<close>

definition table_get :: "assocs \<Rightarrow> string option \<Rightarrow> string \<Rightarrow> string list option" where
  "table_get assocs section key =
     (case map_of assocs section of None \<Rightarrow> None | Some entries \<Rightarrow> map_of entries key)"

subsection \<open>MIME-types\<close>

text \<open>\<open>parse_mimetype\<close>: the first split is unpacked outside any \<open>try\<close>, so a string
  without \<open>/\<close> raises ValueError; the other three splits fall back to \<open>None\<close>.\<close>

definition parse_mimetype ::
  "string \<Rightarrow> error + (string \<times> string option \<times> string \<times> string option \<times> string option)" where
  "parse_mimetype mimetype =
     (case split1 CHR ''/'' mimetype of
        None \<Rightarrow> Inl ValueError
      | Some (type_name, rest0) \<Rightarrow>
          (let (tree, rest1) =
                 (case split1 CHR ''.'' rest0 of None \<Rightarrow> (None, rest0) | Some (t, r) \<Rightarrow> (Some t, r));
               (rest2, parameters) =
                 (case rsplit1 CHR '';'' rest1 of None \<Rightarrow> (rest1, None) | Some (r, p) \<Rightarrow> (r, Some p));
               (subtype_name, suffix) =
                 (case split1 CHR ''+'' rest2 of None \<Rightarrow> (rest2, None) | Some (a, b) \<Rightarrow> (a, Some b))
           in Inr (type_name, tree, subtype_name, suffix, parameters)))"

definition strip_mimetype :: "string \<Rightarrow> error + string" where
  "strip_mimetype mimetype =
     (case parse_mimetype mimetype of
        Inl e \<Rightarrow> Inl e
      | Inr (type_name, _, subtype_name, _, _) \<Rightarrow> Inr (type_name @ ''/'' @ subtype_name))"

subsection \<open>The resolver\<close>

text \<open>
  What a \<open>Mimeo\<close> object reads from its environment: the mimeapps.list paths in their
  order of precedence, the association directories, the (possibly cached) table of each
  path, and which paths exist.
\<close>

record mimeo =
  mimeapps_list_paths :: "string list"
  mimeapps_directories :: "string list"
  get_associations :: "string \<Rightarrow> assocs"
  path_exists :: "string \<Rightarrow> bool"

text \<open>\<open>added.extend(a for a in ... if a not in blacklist and a not in added)\<close>: the
  generator reads \<open>added\<close> while \<open>extend\<close> appends to it.\<close>

fun extend_added :: "string set \<Rightarrow> string list \<Rightarrow> string list \<Rightarrow> string list" where
  "extend_added blacklist added [] = added"
| "extend_added blacklist added (a # as) =
     extend_added blacklist (if a \<notin> blacklist \<and> a \<notin> set added then added @ [a] else added) as"

text \<open>One iteration of the loop of \<open>associated_desktop_paths\<close> gives the new
  \<open>added\<close> and \<open>blacklist\<close>, the candidates \<open>local_associations\<close> of this source, and
  the paths it yields.\<close>

record source_result =
  added_after :: "string list"
  blacklist_after :: "string set"
  local_associations :: "string list"
  yielded :: "string list"

definition merge_source :: "mimeo \<Rightarrow> string \<Rightarrow> string list \<Rightarrow> string set \<Rightarrow> string \<Rightarrow> source_result" where
  "merge_source self mimetype added0 blacklist0 path =
     (let assocs = get_associations self path;
          blacklist = blacklist0
            \<union> set (iterate_associations assocs REMOVED_ASSOCIATIONS_SECTION mimetype);
          added1 = filter (\<lambda>a. a \<notin> blacklist) added0;
          added = extend_added blacklist added1
                    (iterate_associations assocs ADDED_ASSOCIATIONS_SECTION mimetype);
          dpath = dirname path;
          mimeinfo_cache_assocs = get_associations self (path_join dpath MIMEINFO_CACHE_FILE);
          local = added @
            filter (\<lambda>x. x \<notin> blacklist \<and> x \<notin> set added)
              (iterate_associations mimeinfo_cache_assocs MIME_CACHE_SECTION mimetype)
      in \<lparr>added_after = added, blacklist_after = blacklist, local_associations = local,
          yielded = filter (path_exists self) (map (path_join dpath) local)\<rparr>)"

text \<open>The loop over the mimeapps.list paths, from a state \<open>added\<close>, \<open>blacklist\<close>: the
  result of each iteration, in order.\<close>

fun merge_sources :: "mimeo \<Rightarrow> string \<Rightarrow> string list \<Rightarrow> string set \<Rightarrow> string list \<Rightarrow> source_result list" where
  "merge_sources self mimetype added blacklist [] = []"
| "merge_sources self mimetype added blacklist (path # paths) =
     (let r = merge_source self mimetype added blacklist path
      in r # merge_sources self mimetype (added_after r) (blacklist_after r) paths)"

definition source_states :: "mimeo \<Rightarrow> string \<Rightarrow> source_result list" where
  "source_states self mimetype = merge_sources self mimetype [] {} (mimeapps_list_paths self)"

text \<open>\<open>associated_desktop_paths\<close>: the paths yielded, source after source.\<close>

definition associated_desktop_paths :: "mimeo \<Rightarrow> string \<Rightarrow> string list" where
  "associated_desktop_paths self mimetype = concat (map yielded (source_states self mimetype))"

definition default_desktop_filenames :: "mimeo \<Rightarrow> string \<Rightarrow> string list" where
  "default_desktop_filenames self mimetype =
     concat (map (\<lambda>path. iterate_associations (get_associations self path)
                            DEFAULT_APPLICATIONS_SECTION mimetype)
               (mimeapps_list_paths self))"

text \<open>The decorator \<open>unique_items\<close>: every item once, at its first position.\<close>

fun unique_from :: "'a list \<Rightarrow> 'a list \<Rightarrow> 'a list" where
  "unique_from seen [] = []"
| "unique_from seen (x # xs) =
     (if x \<in> set seen then unique_from seen xs else x # unique_from (x # seen) xs)"

definition unique_items :: "'a list \<Rightarrow> 'a list" where
  "unique_items xs = unique_from [] xs"

text \<open>The paths one form of the MIME-type gives in the loop of
  \<open>mimetype_to_desktop_filepaths\<close>: the defaults in every association directory, then
  the associated desktop paths, each kept unless \<open>only_existing\<close> and absent.\<close>

definition form_filepaths :: "mimeo \<Rightarrow> bool \<Rightarrow> string \<Rightarrow> string list" where
  "form_filepaths self only_existing mimetype =
     filter (\<lambda>fpath. \<not> only_existing \<or> path_exists self fpath)
       (concat (map (\<lambda>d. map (\<lambda>dpath. path_join dpath d) (mimeapps_directories self))
                  (default_desktop_filenames self mimetype))
        @ associated_desktop_paths self mimetype)"

text \<open>\<open>mimetype_to_desktop_filepaths\<close>: the items the generator yields (\<open>None\<close> is the
  marker of \<open>at_least_one\<close>), or the exception it raises when it is first advanced:
  \<open>strip_mimetype\<close> is its first statement.\<close>

definition mimetype_to_desktop_filepaths ::
  "mimeo \<Rightarrow> string \<Rightarrow> bool \<Rightarrow> bool \<Rightarrow> bool \<Rightarrow> error + string option list" where
  "mimetype_to_desktop_filepaths self mimetype at_least_one first_only only_existing =
     (case strip_mimetype mimetype of
        Inl e \<Rightarrow> Inl e
      | Inr stripped_mimetype \<Rightarrow>
          (let mimetypes = (if stripped_mimetype \<noteq> mimetype then [mimetype, stripped_mimetype]
                            else [mimetype]);
               found = concat (map (form_filepaths self only_existing) mimetypes)
           in Inr (unique_items
                (case found of
                   [] \<Rightarrow> (if at_least_one then [None] else [])
                 | fpath # rest \<Rightarrow> (if first_only then [Some fpath] else map Some found)))))"

subsection \<open>Shell words: \<open>shlex.split\<close> and \<open>shlex.quote\<close>\<close>

text \<open>
  \<open>shlex.split(s)\<close> of the Python standard library (POSIX mode, split on whitespace
  only, no comment characters), as the state machine of \<open>shlex.read_token\<close>: the state
  is \<open>' '\<close> between words, \<open>'a'\<close> inside a word, a quote character inside a quotation,
  or the escape character, with the state to return to. \<open>None\<close> is the ValueError of an
  unclosed quotation or a trailing backslash.
\<close>

datatype lexstate = Whitespace | Word | Quote char | Escape "char option"

fun read_tokens :: "lexstate \<Rightarrow> bool \<Rightarrow> string \<Rightarrow> string \<Rightarrow> string list option" where
  "read_tokens Whitespace quoted token [] = Some (if token \<noteq> [] \<or> quoted then [token] else [])"
| "read_tokens Word quoted token [] = Some (if token \<noteq> [] \<or> quoted then [token] else [])"
| "read_tokens (Quote q) quoted token [] = None"
| "read_tokens (Escape es) quoted token [] = None"
| "read_tokens Whitespace quoted token (c # cs) =
     (if c \<in> set [CHR '' '', CHR 0x09, CHR 0x0D, CHR 0x0A] then
        (if token \<noteq> [] \<or> quoted
         then map_option ((#) token) (read_tokens Whitespace False [] cs)
         else read_tokens Whitespace quoted token cs)
      else if c = CHR 0x5C then read_tokens (Escape None) quoted token cs
      else if c = CHR 0x27 \<or> c = CHR 0x22 then read_tokens (Quote c) quoted token cs
      else read_tokens Word quoted [c] cs)"
| "read_tokens Word quoted token (c # cs) =
     (if c \<in> set [CHR '' '', CHR 0x09, CHR 0x0D, CHR 0x0A] then
        (if token \<noteq> [] \<or> quoted
         then map_option ((#) token) (read_tokens Whitespace False [] cs)
         else read_tokens Whitespace quoted token cs)
      else if c = CHR 0x27 \<or> c = CHR 0x22 then read_tokens (Quote c) quoted token cs
      else if c = CHR 0x5C then read_tokens (Escape None) quoted token cs
      else read_tokens Word quoted (token @ [c]) cs)"
| "read_tokens (Quote q) quoted token (c # cs) =
     (if c = q then read_tokens Word True token cs
      else if c = CHR 0x5C \<and> q = CHR 0x22 then read_tokens (Escape (Some q)) True token cs
      else read_tokens (Quote q) True (token @ [c]) cs)"
| "read_tokens (Escape es) quoted token (c # cs) =
     (case es of
        None \<Rightarrow> read_tokens Word quoted (token @ [c]) cs
      | Some q \<Rightarrow>
          read_tokens (Quote q) quoted
            ((if c \<noteq> CHR 0x5C \<and> c \<noteq> q then token @ [CHR 0x5C] else token) @ [c]) cs)"

definition shlex_split :: "string \<Rightarrow> string list option" where
  "shlex_split s = read_tokens Whitespace False [] s"

text \<open>\<open>shlex.quote(s)\<close>: a word of safe characters stays; any other is put in single
  quotes, each single quote inside written \<open>'"'"'\<close>.\<close>

definition shlex_safe :: "char \<Rightarrow> bool" where
  "shlex_safe c \<longleftrightarrow>
     c \<in> set ''abcdefghijklmnopqrstuvwxyzABCDEFGHIJKLMNOPQRSTUVWXYZ0123456789_@%+=:,./-''"

definition shlex_quote :: "string \<Rightarrow> string" where
  "shlex_quote s =
     (if s = [] then [CHR 0x27, CHR 0x27]
      else if list_all shlex_safe s then s
      else [CHR 0x27] @
           concat (map (\<lambda>c. if c = CHR 0x27 then [CHR 0x27, CHR 0x22, CHR 0x27, CHR 0x22, CHR 0x27]
                              else [c]) s)
           @ [CHR 0x27])"

subsection \<open>Terminal commands\<close>

text \<open>The inner loop of \<open>interpolate_term_cmd\<close> over the characters of a word:
  \<open>%s\<close> becomes the quoted application command, \<open>%\<close> before any other character is
  dropped.\<close>

fun interpolate_word :: "string \<Rightarrow> bool \<Rightarrow> string \<Rightarrow> string" where
  "interpolate_word app_cmd_word escaped [] = []"
| "interpolate_word app_cmd_word escaped (c # cs) =
     (if escaped then
        (if c = CHR ''s'' then app_cmd_word else [c]) @ interpolate_word app_cmd_word False cs
      else if c = CHR ''%'' then interpolate_word app_cmd_word True cs
      else c # interpolate_word app_cmd_word False cs)"

text \<open>What one word of the terminal command yields.\<close>

definition interpolate_term_word :: "string list \<Rightarrow> string \<Rightarrow> string \<Rightarrow> string list" where
  "interpolate_term_word app_cmd app_cmd_word word =
     (if word = ''%s'' then app_cmd
      else if word = [CHR 0x27] @ ''%s'' @ [CHR 0x27] then [app_cmd_word]
      else [interpolate_word app_cmd_word False word])"

text \<open>\<open>interpolate_term_cmd\<close>. The source sets a flag \<open>seen\<close> at each placeholder and
  never reads it: nothing follows the loop over the words.\<close>

definition interpolate_term_cmd :: "string \<Rightarrow> string list \<Rightarrow> error + string list" where
  "interpolate_term_cmd term_cmd app_cmd =
     (let app_cmd_word = join '' '' (map shlex_quote app_cmd)
      in case shlex_split term_cmd of
           None \<Rightarrow> Inl ValueError
         | Some words \<Rightarrow> Inr (concat (map (interpolate_term_word app_cmd app_cmd_word) words)))"

subsection \<open>Writing desktop entries\<close>

definition EXEC_RESERVED :: string where
  "EXEC_RESERVED = [CHR '' '', CHR 0x09, CHR 0x0A, CHR 0x22, CHR 0x27, CHR 0x5C] @ ''><~|&;$*?#()'' @ [CHR 0x60]"

definition EXEC_ESCAPED :: string where
  "EXEC_ESCAPED = [CHR 0x22, CHR 0x60, CHR ''$'', CHR 0x5C]"

text \<open>An item of a Python sequence of which \<open>str.join\<close> expects strings: a string,
  or a generator object (with the strings it would yield).\<close>

datatype item = Str string | Generator "string list"

text \<open>\<open>exec_quote_word\<close> is a generator: it yields a double quote, then for each
  character either the character or the two-character string \<open>\c\<close> (a backslash and
  the letter c, as the source writes it), then a double quote.\<close>

definition exec_quote_word :: "string \<Rightarrow> string list" where
  "exec_quote_word word =
     [[CHR 0x22]] @ map (\<lambda>c. if c \<in> set EXEC_ESCAPED then [CHR 0x5C, CHR ''c''] else [c]) word
     @ [[CHR 0x22]]"

text \<open>\<open>exec_quote_exec\<close> yields, for a word with a reserved character, the generator
  object that \<open>exec_quote_word\<close> returns, and any other word itself.\<close>

definition exec_quote_exec :: "string list \<Rightarrow> item list" where
  "exec_quote_exec cmd =
     map (\<lambda>word. if list_ex (\<lambda>c. c \<in> set word) EXEC_RESERVED
                  then Generator (exec_quote_word word) else Str word) cmd"

text \<open>\<open>sep.join(items)\<close> raises TypeError when an item is not a string.\<close>

fun item_strings :: "item list \<Rightarrow> string list option" where
  "item_strings [] = Some []"
| "item_strings (Str s # xs) = map_option ((#) s) (item_strings xs)"
| "item_strings (Generator g # xs) = None"

definition py_join :: "string \<Rightarrow> item list \<Rightarrow> error + string" where
  "py_join sep xs = (case item_strings xs of None \<Rightarrow> Inl TypeError | Some ss \<Rightarrow> Inr (join sep ss))"

text \<open>The value of the \<open>Exec\<close> key in \<open>create_desktop_entry\<close>.\<close>

definition exec_value :: "string list \<Rightarrow> error + string" where
  "exec_value cmd = py_join '' '' (exec_quote_exec cmd)"

definition desktop_entry_text :: "string \<Rightarrow> string \<Rightarrow> string list \<Rightarrow> bool \<Rightarrow> string" where
  "desktop_entry_text name exec mimetypes is_term =
     ''[Desktop Entry]'' @ [CHR 0x0A] @
     ''Type=Application'' @ [CHR 0x0A] @
     ''Name='' @ name @ [CHR 0x0A] @
     ''Exec='' @ exec @ [CHR 0x0A] @
     ''MimeType='' @ join '';'' mimetypes @ '';'' @ [CHR 0x0A] @
     ''Terminal='' @ (if is_term then ''true'' else ''false'') @ [CHR 0x0A] @
     ''NoDisplay=true'' @ [CHR 0x0A] @
     ''Comment=Created by Mimeo'' @ [CHR 0x0A]"

text \<open>\<open>create_desktop_entry\<close>: the file system afterwards and the exception raised,
  if any. The file is opened for writing before the text is formatted, so an exception
  of the formatting leaves it empty.\<close>

definition create_desktop_entry ::
  "files \<Rightarrow> string \<Rightarrow> string \<Rightarrow> string list \<Rightarrow> string list \<Rightarrow> bool \<Rightarrow> files \<times> error option" where
  "create_desktop_entry fs path name cmd mimetypes is_term =
     (if name \<noteq> [] \<and> cmd \<noteq> [] \<and> mimetypes \<noteq> [] then
        (case exec_value cmd of
           Inl e \<Rightarrow> (fs(path \<mapsto> []), Some e)
         | Inr exec \<Rightarrow> (fs(path \<mapsto> desktop_entry_text name exec mimetypes is_term), None))
      else (fs, Some ValueError))"

subsection \<open>Commands from Exec fields\<close>

text \<open>\<open>parse_unexpandable_field_codes\<close>: the strings the generator yields for a word;
  a code that is not a key of \<open>field_codes\<close> yields nothing.\<close>

fun parse_unexpandable_field_codes :: "bool \<Rightarrow> string \<Rightarrow> (char \<Rightarrow> string option) \<Rightarrow> string list" where
  "parse_unexpandable_field_codes field_code [] field_codes = []"
| "parse_unexpandable_field_codes field_code (c # cs) field_codes =
     (if field_code then
        (case field_codes c of Some v \<Rightarrow> [v] | None \<Rightarrow> [])
        @ parse_unexpandable_field_codes False cs field_codes
      else if c = CHR ''%'' then parse_unexpandable_field_codes True cs field_codes
      else [c] # parse_unexpandable_field_codes False cs field_codes)"

text \<open>
  What \<open>ensure_url\<close> and \<open>ensure_path\<close> take from the standard library, as
  parameters: \<open>urllib.parse.urlparse\<close> (\<open>None\<close> is the ValueError it raises on an
  invalid URL such as \<open>//[x\<close>) with the attributes of its result that are read,
  \<open>unquote\<close>, \<open>quote\<close>, \<open>urlunsplit\<close> of a scheme and a path alone,
  \<open>os.path.abspath\<close>, \<open>socket.gethostname\<close> and \<open>socket.getfqdn\<close>.
\<close>

record parsed_url =
  url_scheme :: string
  url_netloc :: string
  url_hostname :: "string option"
  url_path :: string
  url_geturl :: string

record library =
  urlparse :: "string \<Rightarrow> parsed_url option"
  unquote :: "string \<Rightarrow> string"
  quote :: "string \<Rightarrow> string"
  urlunsplit :: "string \<Rightarrow> string \<Rightarrow> string"
  abspath :: "string \<Rightarrow> string"
  gethostname :: string
  getfqdn :: "string \<Rightarrow> string"

definition SCHEME_FILE :: string where
  "SCHEME_FILE = ''file''"

text \<open>\<open>ensure_url\<close>: \<open>urlparse\<close> is called outside any \<open>try\<close>, so its ValueError
  is the function's.\<close>

definition ensure_url :: "library \<Rightarrow> string \<Rightarrow> error + string" where
  "ensure_url lib arg =
     (case urlparse lib arg of
        None \<Rightarrow> Inl ValueError
      | Some parsed \<Rightarrow>
          if url_scheme parsed \<noteq> [] then Inr (url_geturl parsed)
          else Inr (urlunsplit lib SCHEME_FILE (quote lib (abspath lib arg))))"

text \<open>\<open>ensure_path\<close>: the argument itself when it is no URL, the path of a \<open>file\<close>
  URL on this host, and \<open>None\<close> for any other URL.\<close>

definition ensure_path :: "library \<Rightarrow> string \<Rightarrow> error + string option" where
  "ensure_path lib arg =
     (case urlparse lib arg of
        None \<Rightarrow> Inl ValueError
      | Some parsed \<Rightarrow>
          if \<not> (url_scheme parsed \<noteq> [] \<or> url_netloc parsed \<noteq> []) then Inr (Some arg)
          else if url_scheme parsed = SCHEME_FILE then
            (let localhost = getfqdn lib (gethostname lib);
                 hostname = (case url_hostname parsed of
                               None \<Rightarrow> ''localhost''
                             | Some h \<Rightarrow> if h = [] then ''localhost'' else h);
                 remotehost = getfqdn lib hostname
             in if remotehost = localhost then Inr (Some (unquote lib (url_path parsed)))
                else Inr None)
          else Inr None)"

text \<open>\<open>list(...)\<close> of a generator: the items it yields, or the first exception it
  raises.\<close>

fun collect :: "(error + 'a) list \<Rightarrow> error + 'a list" where
  "collect [] = Inr []"
| "collect (Inl e # xs) = Inl e"
| "collect (Inr x # xs) = (case collect xs of Inl e \<Rightarrow> Inl e | Inr ys \<Rightarrow> Inr (x # ys))"

text \<open>\<open>parse_field_codes\<close>: the words the generator yields for one word of the
  template, or the exception of \<open>ensure_path\<close> or \<open>ensure_url\<close>. An icon or a path
  that is \<open>None\<close> or empty counts as absent. In the last branch the loop over \<open>args\<close>
  calls \<open>ensure_path\<close> and then \<open>ensure_url\<close> on the first argument, whatever the
  word.\<close>

definition parse_field_codes ::
  "library \<Rightarrow> string \<Rightarrow> string \<Rightarrow> string list \<Rightarrow> string option \<Rightarrow> string option \<Rightarrow> bool
     \<Rightarrow> error + string list" where
  "parse_field_codes lib word name args icon path omit_empty =
     (if word = ''%i'' then
        Inr (case icon of None \<Rightarrow> [] | Some i \<Rightarrow> if i = [] then [] else [''--icon'', i])
      else if word = ''%F'' then
        (case collect (map (ensure_path lib) args) of
           Inl e \<Rightarrow> Inl e
         | Inr ps \<Rightarrow>
             Inr (concat (map (\<lambda>p. case p of None \<Rightarrow> [] | Some p \<Rightarrow> if p = [] then [] else [p]) ps)))
      else if word = ''%U'' then collect (map (ensure_url lib) args)
      else if (word = ''%f'' \<or> word = ''%u'') \<and> args = [] then Inr []
      else
        (case (case args of
                 [] \<Rightarrow> Inr ([], [])
               | arg # _ \<Rightarrow>
                   (case ensure_path lib arg of
                      Inl e \<Rightarrow> Inl e
                    | Inr p \<Rightarrow>
                        (case ensure_url lib arg of
                           Inl e \<Rightarrow> Inl e
                         | Inr u \<Rightarrow> Inr (case p of None \<Rightarrow> [] | Some p \<Rightarrow> p, u)))) of
           Inl e \<Rightarrow> Inl e
         | Inr (f, u) \<Rightarrow>
             (let field_codes =
                    [CHR ''%'' \<mapsto> ''%'',
                     CHR ''c'' \<mapsto> name,
                     CHR ''k'' \<mapsto> (case path of None \<Rightarrow> [] | Some p \<Rightarrow> p),
                     CHR ''f'' \<mapsto> f,
                     CHR ''u'' \<mapsto> u];
                  interpolated_word = concat (parse_unexpandable_field_codes False word field_codes)
              in if interpolated_word \<noteq> [] \<or> \<not> omit_empty
                    \<or> word \<notin> set [''%k'', ''%f'', ''%u'']
                 then Inr [interpolated_word] else Inr [])))"

text \<open>The set \<open>codes\<close> of \<open>exec_field_to_cmds_without_term\<close>, in the order of the
  loop over \<open>'fuFU'\<close>.\<close>

definition exec_codes :: "string \<Rightarrow> string" where
  "exec_codes exe =
     filter (\<lambda>c. str_contains [CHR ''%'', c] (remove_percent_pairs exe)) ''fuFU''"

text \<open>The command one tuple of arguments gives: the words, each interpolated, or the
  first exception.\<close>

definition interpolate_words ::
  "library \<Rightarrow> string list \<Rightarrow> string \<Rightarrow> string option \<Rightarrow> string option \<Rightarrow> string list
     \<Rightarrow> error + string list" where
  "interpolate_words lib words name icon path aa =
     (case collect (map (\<lambda>w. parse_field_codes lib w name aa icon path False) words) of
        Inl e \<Rightarrow> Inl e
      | Inr parts \<Rightarrow> Inr (concat parts))"

text \<open>What a generator has done when it stops: the items it yielded, and the exception
  that ended it, if any.\<close>

fun yield_until :: "(error + 'a) list \<Rightarrow> 'a list \<times> error option" where
  "yield_until [] = ([], None)"
| "yield_until (Inl e # xs) = ([], Some e)"
| "yield_until (Inr x # xs) = (x # fst (yield_until xs), snd (yield_until xs))"

text \<open>
  \<open>exec_field_to_cmds_without_term\<close>: the commands the generator yields and the
  exception that ends it, if any. For more than one code the source raises
  \<open>xdg.DesktopEntry.ValidationError\<close>; the module \<open>xdg.DesktopEntry\<close> has no such
  attribute (pyxdg defines \<open>ValidationError\<close> in \<open>xdg.Exceptions\<close>), so evaluating
  the name raises AttributeError. \<open>shlex.split\<close> comes after that check and may raise
  ValueError.
\<close>

definition exec_field_to_cmds_without_term ::
  "library \<Rightarrow> string \<Rightarrow> string list \<Rightarrow> string \<Rightarrow> string option \<Rightarrow> string option
     \<Rightarrow> string list list \<times> error option" where
  "exec_field_to_cmds_without_term lib exe args name icon path =
     (let codes = exec_codes exe;
          single = list_ex (\<lambda>c. c \<in> set ''fu'') codes
      in if length codes > 1 then ([], Some AttributeError)
         else (case shlex_split exe of
                 None \<Rightarrow> ([], Some ValueError)
               | Some words \<Rightarrow>
                   (let argss = (if args = [] then [[]]
                                 else if single then map (\<lambda>a. [a]) args
                                 else [args])
                    in yield_until (map (interpolate_words lib words name icon path) argss))))"

text \<open>
  The words of the specification for an ambiguous Exec template: with every \<open>%%\<close>
  taken out, the template contains two different codes among \<open>%f\<close>, \<open>%u\<close>, \<open>%F\<close>
  and \<open>%U\<close>.
\<close>

definition several_codes :: "string \<Rightarrow> bool" where
  "several_codes exe \<longleftrightarrow>
     (\<exists>c \<in> set ''fuFU''. \<exists>c' \<in> set ''fuFU''. c \<noteq> c'
        \<and> str_contains [CHR ''%'', c] (remove_percent_pairs exe)
        \<and> str_contains [CHR ''%'', c'] (remove_percent_pairs exe))"

text \<open>
  The words of the specification for repeated keys: the entry lines of a file, each with
  the section whose header was the last before it, the key and the values it gives; and
  the values of the last entry line for a section and key that gives at least one
  value.
\<close>

fun entry_lines :: "string option \<Rightarrow> string list \<Rightarrow> (string option \<times> string \<times> string list) list" where
  "entry_lines sec [] = []"
| "entry_lines sec (raw # lines) =
     (case classify_line raw of
        Header s \<Rightarrow> entry_lines (Some s) lines
      | Entry mimetype desktops \<Rightarrow> (sec, mimetype, desktops) # entry_lines sec lines
      | Skipped \<Rightarrow> entry_lines sec lines
      | Malformed \<Rightarrow> entry_lines sec lines)"

definition last_entry :: "string list \<Rightarrow> string option \<Rightarrow> string \<Rightarrow> string list option" where
  "last_entry lines sec key =
     (case filter (\<lambda>e. fst e = sec \<and> fst (snd e) = key \<and> snd (snd e) \<noteq> [])
             (entry_lines None lines) of
        [] \<Rightarrow> None
      | e # es \<Rightarrow> Some (snd (snd (last (e # es)))))"

text \<open>A table is a dictionary of dictionaries: no section name and, within a section,
  no key stands twice.\<close>

definition dict_of_dicts :: "assocs \<Rightarrow> bool" where
  "dict_of_dicts assocs \<longleftrightarrow>
     distinct (map fst assocs) \<and> list_all (\<lambda>se. distinct (map fst (snd se))) assocs"

text \<open>
  What the file format can hold. A value is a non-empty string without \<open>;\<close>, \<open>/\<close> or
  line break and without white space at either end; a key has no \<open>=\<close> and no line
  break, no white space at either end and no \<open>#\<close> in front; an entry has such a key and
  at least one value, all of them such values; a section has a name that is a string
  without line break, and such entries. A table is storable when it is a dictionary of
  dictionaries of such sections.
\<close>

definition storable_value :: "string \<Rightarrow> bool" where
  "storable_value v \<longleftrightarrow> v \<noteq> [] \<and> \<not> py_isspace (hd v) \<and> \<not> py_isspace (last v)
     \<and> list_all (\<lambda>c. c \<notin> set [CHR '';'', CHR ''/'', CHR 0x0A, CHR 0x0D]) v"

definition storable_key :: "string \<Rightarrow> bool" where
  "storable_key k \<longleftrightarrow> (k = [] \<or> \<not> py_isspace (hd k) \<and> \<not> py_isspace (last k) \<and> hd k \<noteq> CHR ''#'')
     \<and> list_all (\<lambda>c. c \<notin> set [CHR ''='', CHR 0x0A, CHR 0x0D]) k"

definition storable_entry :: "string \<times> string list \<Rightarrow> bool" where
  "storable_entry kv \<longleftrightarrow> storable_key (fst kv) \<and> snd kv \<noteq> [] \<and> list_all storable_value (snd kv)"

definition storable_section :: "string option \<times> entries \<Rightarrow> bool" where
  "storable_section se \<longleftrightarrow>
     (case fst se of None \<Rightarrow> False
      | Some s \<Rightarrow> list_all (\<lambda>c. c \<notin> set [CHR 0x0A, CHR 0x0D]) s)
     \<and> list_all storable_entry (snd se)"

definition storable :: "assocs \<Rightarrow> bool" where
  "storable assocs \<longleftrightarrow> dict_of_dicts assocs \<and> list_all storable_section assocs"

text \<open>A string that is one line of a text file: it ends with its only \<open>\n\<close> and has
  no \<open>\r\<close>.\<close>

definition one_line :: "string \<Rightarrow> bool" where
  "one_line w \<longleftrightarrow> (\<exists>l. w = l @ [CHR 0x0A] \<and> CHR 0x0A \<notin> set l \<and> CHR 0x0D \<notin> set l)"

subsection \<open>Example configurations\<close>

text \<open>
  Two system data directories, \<open>/usr/local/share\<close> before \<open>/usr/share\<close>, each with a
  mimeapps.list in its \<open>applications\<close> directory and with \<open>vim.desktop\<close> installed.
  In \<open>added_then_removed\<close> the first list adds \<open>vim.desktop\<close> to \<open>text/plain\<close> and
  the second removes it; in \<open>removed_then_added\<close> it is the other way round.
\<close>

definition vim_added :: assocs where
  "vim_added = [(Some ''Added Associations'', [(''text/plain'', [''vim.desktop''])])]"

definition vim_removed :: assocs where
  "vim_removed = [(Some ''Removed Associations'', [(''text/plain'', [''vim.desktop''])])]"

definition example_paths :: "string list" where
  "example_paths = [''/usr/local/share/applications/mimeapps.list'',
                    ''/usr/share/applications/mimeapps.list'']"

definition example_exists :: "string \<Rightarrow> bool" where
  "example_exists p \<longleftrightarrow> p = ''/usr/local/share/applications/vim.desktop''
                       \<or> p = ''/usr/share/applications/vim.desktop''"

definition added_then_removed :: mimeo where
  "added_then_removed =
     \<lparr>mimeapps_list_paths = example_paths,
      mimeapps_directories = [''/usr/local/share/applications'', ''/usr/share/applications''],
      get_associations = (\<lambda>p. if p = ''/usr/local/share/applications/mimeapps.list'' then vim_added
                               else if p = ''/usr/share/applications/mimeapps.list'' then vim_removed
                               else []),
      path_exists = example_exists\<rparr>"

definition removed_then_added :: mimeo where
  "removed_then_added =
     \<lparr>mimeapps_list_paths = example_paths,
      mimeapps_directories = [''/usr/local/share/applications'', ''/usr/share/applications''],
      get_associations = (\<lambda>p. if p = ''/usr/local/share/applications/mimeapps.list'' then vim_removed
                               else if p = ''/usr/share/applications/mimeapps.list'' then vim_added
                               else []),
      path_exists = example_exists\<rparr>"



text \<open>The lines of a list file in which the section \<open>Added Associations\<close> has two
  headers and the key \<open>text/plain\<close> three entry lines, the last without a value.\<close>

definition repeated_key_lines :: "string list" where
  "repeated_key_lines =
     [''[Added Associations]'' @ [CHR 0x0A],
      ''text/plain=emacs.desktop;nano.desktop;'' @ [CHR 0x0A],
      ''[Default Applications]'' @ [CHR 0x0A],
      ''text/plain=emacs.desktop;'' @ [CHR 0x0A],
      ''[Added Associations]'' @ [CHR 0x0A],
      ''image/png=feh.desktop;'' @ [CHR 0x0A],
      ''text/plain=vim.desktop;'' @ [CHR 0x0A],
      ''text/plain=;'' @ [CHR 0x0A]]"

text \<open>A table whose key is a MIME-type with a parameter, and a table of two sections
  whose keys are not in sorted order; the path of the user's list file.\<close>

definition parameter_key_table :: assocs where
  "parameter_key_table =
     [(Some ''Added Associations'', [(''text/plain;charset=utf-8'', [''vim.desktop''])])]"

definition unsorted_table :: assocs where
  "unsorted_table =
     [(Some ''Added Associations'',
         [(''text/plain'', [''vim.desktop'', ''emacs.desktop'']), (''image/png'', [''feh.desktop'']),
          (''text/html'', [])]),
      (Some ''Removed Associations'', []),
      (Some ''Default Applications'', [(''text/plain'', [''vim.desktop''])])]"

definition user_list_path :: string where
  "user_list_path = ''/home/u/.config/mimeapps.list''"

section \<open>Properties\<close>

subsection \<open>Adding and removing associations\<close>

lemma table_get_update:
  "table_get (AList.update s es t) s' k = (if s' = s then map_of es k else table_get t s' k)"
  by (simp add: table_get_def update_conv')

lemma add_association_get:
  assumes "section \<noteq> []" "key \<noteq> []" "value \<noteq> []"
  shows "table_get (add_association t section key value) (Some section) key =
         Some (value # filter (\<lambda>x. x \<noteq> value)
                 (case table_get t (Some section) key of None \<Rightarrow> [] | Some vs \<Rightarrow> vs))"
  using assms
  by (simp add: add_association_def table_get_def update_conv' split: option.splits)

lemma add_association_idem:
  "add_association (add_association t s k v) s k v = add_association t s k v"
  by (auto simp add: add_association_def update_conv' split: option.splits)

lemma filter_neq_absent: "v \<notin> set xs \<Longrightarrow> filter (\<lambda>x. x \<noteq> v) xs = xs"
  by (induction xs) auto

text \<open>
  C5. For non-empty section \<open>s\<close>, key \<open>k\<close> and value \<open>v\<close>, adding twice gives the same
  table as adding once, and in the result \<open>table[s][k]\<close> is \<open>v\<close> followed by the
  elements of the earlier list other than \<open>v\<close>, in their order: \<open>v\<close> stands at the front
  and occurs exactly once.
\<close>

theorem add_association_twice:
  assumes "s \<noteq> []" "k \<noteq> []" "v \<noteq> []"
  shows "add_association (add_association t s k v) s k v = add_association t s k v
    \<and> (\<exists>rest. table_get (add_association t s k v) (Some s) k = Some (v # rest)
          \<and> count_list (v # rest) v = 1
          \<and> rest = filter (\<lambda>x. x \<noteq> v)
                     (case table_get t (Some s) k of None \<Rightarrow> [] | Some vs \<Rightarrow> vs))"
proof -
  let ?old = "case table_get t (Some s) k of None \<Rightarrow> [] | Some vs \<Rightarrow> vs"
  have "count_list (filter (\<lambda>x. x \<noteq> v) ?old) v = 0"
    by (simp add: count_list_0_iff)
  then show ?thesis
    using add_association_get[OF assms, of t] add_association_idem[of t s k v] by simp
qed

theorem add_association_twice_witness:
  "add_association (add_association
       [(Some ''Added Associations'', [(''text/plain'', [''emacs.desktop'', ''vim.desktop'', ''nano.desktop''])])]
       ''Added Associations'' ''text/plain'' ''vim.desktop'') ''Added Associations'' ''text/plain'' ''vim.desktop''
   = [(Some ''Added Associations'', [(''text/plain'', [''vim.desktop'', ''emacs.desktop'', ''nano.desktop''])])]"
  using add_association_twice[of "''Added Associations''" "''text/plain''" "''vim.desktop''"
    "[(Some ''Added Associations'', [(''text/plain'', [''emacs.desktop'', ''vim.desktop'', ''nano.desktop''])])]"]
  by (simp add: add_association_def)

text \<open>
  C6 as stated fails: adding a value that is already in the list moves it to the front,
  and removing it afterwards does not put it back.
\<close>

theorem add_then_remove_counterexample:
  "table_get
     (remove_association
        (add_association
           [(Some ''Added Associations'', [(''text/plain'', [''emacs.desktop'', ''vim.desktop''])])]
           ''Added Associations'' ''text/plain'' ''vim.desktop'')
        ''Added Associations'' ''text/plain'' (Some ''vim.desktop''))
     (Some ''Added Associations'') ''text/plain''
   \<noteq> table_get
       [(Some ''Added Associations'', [(''text/plain'', [''emacs.desktop'', ''vim.desktop''])])]
       (Some ''Added Associations'') ''text/plain''"
  by (simp add: add_association_def remove_association_def table_get_def)

text \<open>
  C6, amended. For non-empty \<open>s\<close>, \<open>k\<close> and \<open>v\<close>, when \<open>v\<close> is not yet in
  \<open>table[s][k]\<close> (the section or the key is absent, or the list is non-empty and does
  not hold \<open>v\<close>), adding \<open>v\<close> and then removing it restores \<open>table[s][k]\<close>: the same
  list in the same order, or its absence.
\<close>

theorem add_then_remove_restores:
  assumes "s \<noteq> []" "k \<noteq> []" "v \<noteq> []"
    and "case table_get t (Some s) k of None \<Rightarrow> True | Some vs \<Rightarrow> vs \<noteq> [] \<and> v \<notin> set vs"
  shows "table_get (remove_association (add_association t s k v) s k (Some v)) (Some s) k
         = table_get t (Some s) k"
  using assms
  by (auto simp add: add_association_def remove_association_def table_get_def update_conv'
      delete_conv' filter_neq_absent split: option.splits)

theorem add_then_remove_restores_witness:
  "table_get
     (remove_association
        (add_association
           [(Some ''Added Associations'', [(''text/plain'', [''emacs.desktop'', ''nano.desktop''])])]
           ''Added Associations'' ''text/plain'' ''vim.desktop'')
        ''Added Associations'' ''text/plain'' (Some ''vim.desktop''))
     (Some ''Added Associations'') ''text/plain''
   = Some [''emacs.desktop'', ''nano.desktop'']"
  using add_then_remove_restores[of "''Added Associations''" "''text/plain''" "''vim.desktop''"
    "[(Some ''Added Associations'', [(''text/plain'', [''emacs.desktop'', ''nano.desktop''])])]"]
  by (simp add: table_get_def)

subsection \<open>MIME-type parsing\<close>

lemma parse_mimetype_slash:
  "CHR ''/'' \<in> set m \<Longrightarrow>
     \<exists>tree sub suffix params.
        parse_mimetype m = Inr (takeWhile (\<lambda>c. c \<noteq> CHR ''/'') m, tree, sub, suffix, params)"
  by (simp add: parse_mimetype_def split1_def Let_def split: option.splits prod.splits)

lemma parse_mimetype_no_slash:
  "CHR ''/'' \<notin> set m \<Longrightarrow> parse_mimetype m = Inl ValueError"
  by (simp add: parse_mimetype_def split1_def)

text \<open>
  C9. A string with a \<open>/\<close> is parsed into five components, the first being the text
  before the first \<open>/\<close>; then stripping and resolving return too. A string without
  \<open>/\<close> makes \<open>parse_mimetype\<close> raise ValueError, and so do \<open>strip_mimetype\<close> and
  \<open>mimetype_to_desktop_filepaths\<close>: resolving fails, it does not give an empty result.
\<close>

theorem parse_mimetype_needs_slash:
  "(CHR ''/'' \<in> set m \<longrightarrow>
      (\<exists>tree sub suffix params.
         parse_mimetype m = Inr (takeWhile (\<lambda>c. c \<noteq> CHR ''/'') m, tree, sub, suffix, params)
         \<and> strip_mimetype m = Inr (takeWhile (\<lambda>c. c \<noteq> CHR ''/'') m @ ''/'' @ sub))
      \<and> (\<exists>paths. mimetype_to_desktop_filepaths self m at_least_one first_only only_existing
                   = Inr paths))
   \<and> (CHR ''/'' \<notin> set m \<longrightarrow>
        parse_mimetype m = Inl ValueError
      \<and> strip_mimetype m = Inl ValueError
      \<and> mimetype_to_desktop_filepaths self m at_least_one first_only only_existing
          = Inl ValueError)"
proof (intro conjI impI)
  assume s: "CHR ''/'' \<in> set m"
  from parse_mimetype_slash[OF s] obtain tree sub suffix params where
    p: "parse_mimetype m = Inr (takeWhile (\<lambda>c. c \<noteq> CHR ''/'') m, tree, sub, suffix, params)"
    by blast
  then have st: "strip_mimetype m = Inr (takeWhile (\<lambda>c. c \<noteq> CHR ''/'') m @ ''/'' @ sub)"
    by (simp add: strip_mimetype_def)
  from p st show "\<exists>tree sub suffix params.
         parse_mimetype m = Inr (takeWhile (\<lambda>c. c \<noteq> CHR ''/'') m, tree, sub, suffix, params)
         \<and> strip_mimetype m = Inr (takeWhile (\<lambda>c. c \<noteq> CHR ''/'') m @ ''/'' @ sub)"
    by blast
  from st show "\<exists>paths. mimetype_to_desktop_filepaths self m at_least_one first_only only_existing
                  = Inr paths"
    by (simp add: mimetype_to_desktop_filepaths_def Let_def)
next
  assume n: "CHR ''/'' \<notin> set m"
  then show p: "parse_mimetype m = Inl ValueError" by (rule parse_mimetype_no_slash)
  then show st: "strip_mimetype m = Inl ValueError" by (simp add: strip_mimetype_def)
  then show "mimetype_to_desktop_filepaths self m at_least_one first_only only_existing
               = Inl ValueError"
    by (simp add: mimetype_to_desktop_filepaths_def)
qed

theorem parse_mimetype_needs_slash_witness:
  "parse_mimetype ''text/x-python'' = Inr (''text'', None, ''x-python'', None, None)
   \<and> strip_mimetype ''text/x-python'' = Inr ''text/x-python''
   \<and> mimetype_to_desktop_filepaths added_then_removed ''text/x-python'' False False False = Inr []
   \<and> parse_mimetype ''README'' = Inl ValueError
   \<and> strip_mimetype ''README'' = Inl ValueError
   \<and> mimetype_to_desktop_filepaths added_then_removed ''README'' False False False
       = Inl ValueError"
proof -
  have no_slash: "CHR ''/'' \<notin> set ''README''" by simp
  have a: "parse_mimetype ''README'' = Inl ValueError
      \<and> strip_mimetype ''README'' = Inl ValueError
      \<and> mimetype_to_desktop_filepaths added_then_removed ''README'' False False False
          = Inl ValueError"
    using parse_mimetype_needs_slash[of "''README''" added_then_removed False False False] no_slash
    by blast
  have b: "parse_mimetype ''text/x-python'' = Inr (''text'', None, ''x-python'', None, None)"
    by code_simp
  have c: "strip_mimetype ''text/x-python'' = Inr ''text/x-python''"
    by code_simp
  have d: "mimetype_to_desktop_filepaths added_then_removed ''text/x-python'' False False False
             = Inr []"
    by code_simp
  from a b c d show ?thesis by blast
qed

subsection \<open>Terminal commands\<close>

lemma interpolate_word_plain:
  "CHR ''%'' \<notin> set w \<Longrightarrow> interpolate_word acw False w = w"
  by (induction w) auto

text \<open>A terminal command whose words hold no \<open>%\<close> at all comes back as it is, whatever
  the application command.\<close>

lemma interpolate_no_placeholder:
  assumes "shlex_split term_cmd = Some words" "\<forall>w \<in> set words. CHR ''%'' \<notin> set w"
  shows "interpolate_term_cmd term_cmd app_cmd = Inr words"
proof -
  have "concat (map (interpolate_term_word app_cmd acw) ws) = ws"
    if "\<forall>w \<in> set ws. CHR ''%'' \<notin> set w" for ws acw
    using that by (induction ws) (auto simp: interpolate_term_word_def interpolate_word_plain)
  then show ?thesis using assms by (simp add: interpolate_term_cmd_def)
qed

text \<open>
  C2 (the code departs from it). The terminal command \<open>urxvt -e\<close> has no placeholder,
  and the application command \<open>vim notes.txt\<close> is not appended: the result is the
  terminal command's own two words.
\<close>

theorem term_cmd_without_placeholder_drops_app_cmd:
  "interpolate_term_cmd ''urxvt -e'' [''vim'', ''notes.txt''] = Inr [''urxvt'', ''-e'']"
  by (simp add: interpolate_term_cmd_def shlex_split_def interpolate_term_word_def)

subsection \<open>Quoting the Exec value\<close>

text \<open>A command whose words hold no reserved character is written as its words joined
  by spaces.\<close>

lemma exec_value_plain:
  assumes "\<forall>w \<in> set cmd. \<forall>c \<in> set EXEC_RESERVED. c \<notin> set w"
  shows "exec_value cmd = Inr (join '' '' cmd)"
proof -
  have "exec_quote_exec cmd = map Str cmd"
    using assms by (auto simp: exec_quote_exec_def list_ex_iff)
  moreover have "item_strings (map Str xs) = Some xs" for xs by (induction xs) auto
  ultimately show ?thesis by (simp add: exec_value_def py_join_def)
qed

text \<open>
  C3 (the code departs from it). For the command \<open>sh -c 'my viewer'\<close>, whose last word
  holds a space, \<open>exec_quote_exec\<close> yields a generator object instead of a quoted
  string, joining raises TypeError, and \<open>create_desktop_entry\<close> leaves an empty file.
  Were the generator joined, each escaped character would still come out as a backslash
  and the letter c: \<open>exec_quote_word\<close> of \<open>a$b\<close> yields \<open>"\<close>, \<open>a\<close>, \<open>\c\<close>, \<open>b\<close>, \<open>"\<close>.
\<close>

theorem exec_value_type_error:
  "exec_value [''sh'', ''-c'', ''my viewer''] = Inl TypeError
   \<and> create_desktop_entry Map.empty ''/home/u/.local/share/applications/viewer.desktop''
        ''Viewer'' [''sh'', ''-c'', ''my viewer''] [''text/plain''] False
      = (Map.empty(''/home/u/.local/share/applications/viewer.desktop'' \<mapsto> []), Some TypeError)
   \<and> exec_quote_word ''a$b'' = [[CHR 0x22], ''a'', [CHR 0x5C, CHR ''c''], ''b'', [CHR 0x22]]"
  by (simp add: exec_value_def exec_quote_exec_def EXEC_RESERVED_def py_join_def
      create_desktop_entry_def exec_quote_word_def EXEC_ESCAPED_def)

subsection \<open>Commands from Exec fields\<close>

lemma several_codes_length: "several_codes exe \<longleftrightarrow> 1 < length (exec_codes exe)"
  by (auto simp: several_codes_def exec_codes_def)

lemma several_codes_attribute_error:
  "several_codes exe \<Longrightarrow>
     exec_field_to_cmds_without_term lib exe args name icon path = ([], Some AttributeError)"
  by (simp add: several_codes_length exec_field_to_cmds_without_term_def Let_def)













text \<open>
  C8 (the code departs from it). For the template \<open>app %f %U\<close>, which holds two codes,
  the generator raises AttributeError, not a validation error, whatever the arguments:
  the exception class that the \<open>raise\<close> statement names is not an attribute of
  \<open>xdg.DesktopEntry\<close>.
\<close>

theorem exec_several_codes_attribute_error:
  "exec_field_to_cmds_without_term lib ''app %f %U'' args name icon path
     = ([], Some AttributeError)"
proof -
  have "several_codes ''app %f %U''" by code_simp
  then show ?thesis by (rule several_codes_attribute_error)
qed

subsection \<open>Parsing association files\<close>

lemma table_get_set_entry:
  "table_get (set_entry A sec m d) s k = (if s = sec \<and> k = m then Some d else table_get A s k)"
  by (auto simp: set_entry_def table_get_def update_conv' split: option.splits)

lemma set_update_subset: "x \<in> set (AList.update k v al) \<Longrightarrow> x = (k, v) \<or> x \<in> set al"
  by (induction al) (auto split: if_splits)

lemma dict_of_dicts_set_entry:
  assumes "dict_of_dicts A"
  shows "dict_of_dicts (set_entry A sec m d)"
proof (cases "map_of A sec")
  case None
  then show ?thesis using assms
    by (auto simp: dict_of_dicts_def set_entry_def distinct_update list_all_iff
        dest!: set_update_subset)
next
  case (Some es)
  then have "(sec, es) \<in> set A" by (rule map_of_SomeD)
  with assms have "distinct (map fst es)" by (auto simp: dict_of_dicts_def list_all_iff)
  then have "distinct (map fst (AList.update m d es))" by (rule distinct_update)
  with Some assms show ?thesis
    by (auto simp: dict_of_dicts_def set_entry_def distinct_update list_all_iff
        dest!: set_update_subset)
qed

text \<open>The loop of \<open>parse_associations\<close> from any state: a key reads as the last entry
  line for it that gives values, or as before the loop when there is none.\<close>

lemma foldl_parse_line_get:
  "table_get (snd (foldl parse_line (sec, A) lines)) s k =
     (case filter (\<lambda>e. fst e = s \<and> fst (snd e) = k \<and> snd (snd e) \<noteq> []) (entry_lines sec lines) of
        [] \<Rightarrow> table_get A s k
      | e # es \<Rightarrow> Some (snd (snd (last (e # es)))))"
proof (induction lines arbitrary: sec A)
  case Nil
  then show ?case by simp
next
  case (Cons raw lines)
  show ?case
  proof (cases "classify_line raw")
    case (Entry m d)
    show ?thesis
    proof (cases "d = []")
      case True
      with Entry show ?thesis by (simp add: Cons.IH)
    next
      case False
      with Entry show ?thesis
        by (simp add: Cons.IH table_get_set_entry split: list.splits)
    qed
  qed (simp_all add: Cons.IH)
qed

lemma foldl_parse_line_dicts:
  "dict_of_dicts A \<Longrightarrow> dict_of_dicts (snd (foldl parse_line (sec, A) lines))"
proof (induction lines arbitrary: sec A)
  case Nil
  then show ?case by simp
next
  case (Cons raw lines)
  then show ?case
    by (cases "classify_line raw") (auto simp: dict_of_dicts_set_entry)
qed

text \<open>
  C10. In the table that \<open>parse_associations\<close> returns, a key of a section maps to the
  values of the last entry line for that key under a header of that section that gives
  at least one value (and is absent when there is no such line): earlier lines for the
  key are discarded, not merged. Each section name stands once in the table, so the
  entries under repeated headers of a section are in one section.
\<close>

theorem parse_last_entry_wins:
  "table_get (parse_associations lines) sec key = last_entry lines sec key
   \<and> dict_of_dicts (parse_associations lines)"
proof -
  have e: "table_get [] sec key = None" by (simp add: table_get_def)
  have d: "dict_of_dicts []" by (simp add: dict_of_dicts_def)
  show ?thesis
    using foldl_parse_line_get[of None "[]" lines sec key, unfolded e]
      foldl_parse_line_dicts[OF d, of None lines]
    by (simp add: parse_associations_def last_entry_def)
qed

theorem parse_last_entry_wins_witness:
  "table_get (parse_associations repeated_key_lines) (Some ''Added Associations'') ''text/plain''
     = Some [''vim.desktop'']
   \<and> table_get (parse_associations repeated_key_lines) (Some ''Added Associations'') ''image/png''
     = Some [''feh.desktop'']
   \<and> dict_of_dicts (parse_associations repeated_key_lines)"
proof -
  have a: "last_entry repeated_key_lines (Some ''Added Associations'') ''text/plain''
             = Some [''vim.desktop'']"
    by code_simp
  have b: "last_entry repeated_key_lines (Some ''Added Associations'') ''image/png''
             = Some [''feh.desktop'']"
    by code_simp
  show ?thesis
    using parse_last_entry_wins[of repeated_key_lines "Some ''Added Associations''" "''text/plain''"]
      parse_last_entry_wins[of repeated_key_lines "Some ''Added Associations''" "''image/png''"] a b
    by simp
qed

subsection \<open>The resolver\<close>

lemma extend_added_blacklist:
  "set added \<inter> bl = {} \<Longrightarrow> set (extend_added bl added xs) \<inter> bl = {}"
  by (induction xs arbitrary: added) auto

lemma merge_source_blacklist:
  "blacklist_after (merge_source self m added bl path) =
     bl \<union> set (iterate_associations (get_associations self path) REMOVED_ASSOCIATIONS_SECTION m)"
  by (simp add: merge_source_def Let_def)

lemma merge_source_clean:
  "set (added_after (merge_source self m added bl path))
     \<inter> blacklist_after (merge_source self m added bl path) = {}"
  "set (local_associations (merge_source self m added bl path))
     \<inter> blacklist_after (merge_source self m added bl path) = {}"
proof -
  let ?bl = "bl \<union> set (iterate_associations (get_associations self path) REMOVED_ASSOCIATIONS_SECTION m)"
  have "set (filter (\<lambda>a. a \<notin> ?bl) added) \<inter> ?bl = {}" by auto
  then have e: "set (extend_added ?bl (filter (\<lambda>a. a \<notin> ?bl) added)
                  (iterate_associations (get_associations self path) ADDED_ASSOCIATIONS_SECTION m))
                \<inter> ?bl = {}"
    by (rule extend_added_blacklist)
  then show "set (added_after (merge_source self m added bl path))
     \<inter> blacklist_after (merge_source self m added bl path) = {}"
    by (simp add: merge_source_def Let_def)
  from e show "set (local_associations (merge_source self m added bl path))
     \<inter> blacklist_after (merge_source self m added bl path) = {}"
    by (auto simp add: merge_source_def Let_def)
qed

lemma length_merge_sources: "length (merge_sources self m added bl paths) = length paths"
  by (induction paths arbitrary: added bl) (auto simp: Let_def)

lemma merge_sources_grows:
  "j < length paths \<Longrightarrow> bl \<subseteq> blacklist_after (merge_sources self m added bl paths ! j)"
proof (induction paths arbitrary: added bl j)
  case Nil
  then show ?case by simp
next
  case (Cons p ps)
  show ?case
  proof (cases j)
    case 0
    then show ?thesis by (simp add: Let_def merge_source_blacklist)
  next
    case (Suc j')
    with Cons.prems have "j' < length ps" by simp
    from Cons.IH[OF this, where added = "added_after (merge_source self m added bl p)"
        and bl = "blacklist_after (merge_source self m added bl p)"]
    show ?thesis using Suc by (auto simp: Let_def merge_source_blacklist)
  qed
qed

lemma merge_sources_removed:
  "i \<le> j \<Longrightarrow> j < length paths \<Longrightarrow>
     set (iterate_associations (get_associations self (paths ! i)) REMOVED_ASSOCIATIONS_SECTION m)
       \<subseteq> blacklist_after (merge_sources self m added bl paths ! j)"
proof (induction paths arbitrary: added bl i j)
  case Nil
  then show ?case by simp
next
  case (Cons p ps)
  show ?case
  proof (cases i)
    case 0
    show ?thesis
    proof (cases j)
      case 0
      with \<open>i = 0\<close> show ?thesis by (simp add: Let_def merge_source_blacklist)
    next
      case (Suc j')
      with Cons.prems have "j' < length ps" by simp
      from merge_sources_grows[OF this, where bl = "blacklist_after (merge_source self m added bl p)"
          and self = self and m = m and added = "added_after (merge_source self m added bl p)"]
      show ?thesis using Suc \<open>i = 0\<close> by (auto simp: Let_def merge_source_blacklist)
    qed
  next
    case (Suc i')
    with Cons.prems obtain j' where j: "j = Suc j'" "i' \<le> j'" "j' < length ps"
      by (cases j) auto
    from Cons.IH[OF j(2,3)] show ?thesis using Suc j(1) by (simp add: Let_def)
  qed
qed

lemma merge_sources_clean:
  "j < length paths \<Longrightarrow>
     set (added_after (merge_sources self m added bl paths ! j))
       \<inter> blacklist_after (merge_sources self m added bl paths ! j) = {}
   \<and> set (local_associations (merge_sources self m added bl paths ! j))
       \<inter> blacklist_after (merge_sources self m added bl paths ! j) = {}"
proof (induction paths arbitrary: added bl j)
  case Nil
  then show ?case by simp
next
  case (Cons p ps)
  show ?case
  proof (cases j)
    case 0
    then show ?thesis by (simp add: Let_def merge_source_clean)
  next
    case (Suc j')
    with Cons.prems have "j' < length ps" by simp
    from Cons.IH[OF this] show ?thesis using Suc by (simp add: Let_def)
  qed
qed

lemma merge_sources_yielded:
  "j < length paths \<Longrightarrow>
     yielded (merge_sources self m added bl paths ! j)
       = filter (path_exists self)
           (map (path_join (dirname (paths ! j)))
              (local_associations (merge_sources self m added bl paths ! j)))"
proof (induction paths arbitrary: added bl j)
  case Nil
  then show ?case by simp
next
  case (Cons p ps)
  show ?case
  proof (cases j)
    case 0
    then show ?thesis by (simp add: Let_def merge_source_def)
  next
    case (Suc j')
    with Cons.prems have "j' < length ps" by simp
    from Cons.IH[OF this] show ?thesis using Suc by (simp add: Let_def)
  qed
qed

text \<open>
  C1 as stated fails in its first half. An identifier added by an earlier source is a
  candidate of that source, and its path is yielded there, before the later source that
  removes it is read: the resolver returns it.
\<close>

theorem added_then_removed_counterexample:
  "iterate_associations
       (get_associations added_then_removed (mimeapps_list_paths added_then_removed ! 0))
       ADDED_ASSOCIATIONS_SECTION ''text/plain'' = [''vim.desktop'']
   \<and> iterate_associations
       (get_associations added_then_removed (mimeapps_list_paths added_then_removed ! 1))
       REMOVED_ASSOCIATIONS_SECTION ''text/plain'' = [''vim.desktop'']
   \<and> map local_associations (source_states added_then_removed ''text/plain'')
       = [[''vim.desktop''], []]
   \<and> associated_desktop_paths added_then_removed ''text/plain''
       = [''/usr/local/share/applications/vim.desktop'']
   \<and> mimetype_to_desktop_filepaths added_then_removed ''text/plain'' False False True
       = Inr [Some ''/usr/local/share/applications/vim.desktop'']"
  by code_simp

text \<open>
  C1, amended. If \<open>d\<close> is in the Removed Associations entry for \<open>m\<close> of the source
  \<open>i\<close>, then for that source and every later one \<open>j\<close>, \<open>d\<close> is neither in the list
  \<open>added\<close> after the source is merged nor among its candidates, whether \<open>d\<close> was added
  by an earlier source or is added by a later one (the blacklist only grows); the paths
  a source yields are those of its candidates that exist. So \<open>d\<close> is absent from the
  final \<open>added\<close> list, and no path is yielded for \<open>d\<close> from the removing source on;
  what earlier sources yielded stays.
\<close>

theorem removal_hides_from_then_on:
  assumes "d \<in> set (iterate_associations (get_associations self (mimeapps_list_paths self ! i))
                       REMOVED_ASSOCIATIONS_SECTION m)"
    and "i \<le> j" and "j < length (mimeapps_list_paths self)"
  shows "d \<notin> set (added_after (source_states self m ! j))
       \<and> d \<notin> set (local_associations (source_states self m ! j))
       \<and> yielded (source_states self m ! j)
           = filter (path_exists self)
               (map (path_join (dirname (mimeapps_list_paths self ! j)))
                  (local_associations (source_states self m ! j)))
       \<and> length (source_states self m) = length (mimeapps_list_paths self)"
proof -
  have "d \<in> blacklist_after (source_states self m ! j)"
    using merge_sources_removed[OF assms(2,3), where self = self and m = m and added = "[]" and bl = "{}"] assms(1)
    by (auto simp: source_states_def)
  then show ?thesis
    using merge_sources_clean[OF assms(3), where self = self and m = m and added = "[]" and bl = "{}"]
      merge_sources_yielded[OF assms(3), where self = self and m = m and added = "[]" and bl = "{}"]
    by (auto simp: source_states_def length_merge_sources)
qed


theorem removal_hides_from_then_on_witness:
  "''vim.desktop'' \<in> set (iterate_associations
        (get_associations removed_then_added (mimeapps_list_paths removed_then_added ! 0))
        REMOVED_ASSOCIATIONS_SECTION ''text/plain'')
   \<and> ''vim.desktop'' \<in> set (iterate_associations
        (get_associations removed_then_added (mimeapps_list_paths removed_then_added ! 1))
        ADDED_ASSOCIATIONS_SECTION ''text/plain'')
   \<and> ''vim.desktop'' \<notin> set (added_after (source_states removed_then_added ''text/plain'' ! 1))
   \<and> ''vim.desktop'' \<notin> set (local_associations (source_states removed_then_added ''text/plain'' ! 1))
   \<and> associated_desktop_paths removed_then_added ''text/plain'' = []"
proof -
  have r: "''vim.desktop'' \<in> set (iterate_associations
        (get_associations removed_then_added (mimeapps_list_paths removed_then_added ! 0))
        REMOVED_ASSOCIATIONS_SECTION ''text/plain'')"
    by code_simp
  have a: "''vim.desktop'' \<in> set (iterate_associations
        (get_associations removed_then_added (mimeapps_list_paths removed_then_added ! 1))
        ADDED_ASSOCIATIONS_SECTION ''text/plain'')"
    by code_simp
  have le: "(0::nat) \<le> 1" by simp
  have len: "1 < length (mimeapps_list_paths removed_then_added)"
    by (simp add: removed_then_added_def example_paths_def)
  have p: "associated_desktop_paths removed_then_added ''text/plain'' = []"
    by code_simp
  from removal_hides_from_then_on[OF r le len] r a p show ?thesis by blast
qed

subsection \<open>Saving and loading association files\<close>

lemma universal_newlines_id: "CHR 0x0D \<notin> set s \<Longrightarrow> universal_newlines s = s"
  by (induction s rule: universal_newlines.induct) auto

lemma readlines_line:
  "CHR 0x0A \<notin> set l \<Longrightarrow> readlines (l @ CHR 0x0A # rest) = (l @ [CHR 0x0A]) # readlines rest"
  by (induction l) auto

lemma readlines_writes:
  "list_all one_line ws \<Longrightarrow> readlines (concat ws) = ws"
proof (induction ws)
  case Nil
  then show ?case by simp
next
  case (Cons w ws)
  then obtain l where "w = l @ [CHR 0x0A]" "CHR 0x0A \<notin> set l" by (auto simp: one_line_def)
  with Cons show ?case by (simp add: readlines_line)
qed

lemma one_line_no_cr: "list_all one_line ws \<Longrightarrow> CHR 0x0D \<notin> set (concat ws)"
  by (induction ws) (auto simp: one_line_def)

lemma read_writes:
  assumes "list_all one_line ws"
  shows "readlines (universal_newlines (concat ws)) = ws"
proof -
  have "universal_newlines (concat ws) = concat ws"
    using one_line_no_cr[OF assms] by (rule universal_newlines_id)
  then show ?thesis using readlines_writes[OF assms] by simp
qed

lemma rstrip_newline: "rstrip (s @ [CHR 0x0A]) = rstrip s"
  by (simp add: rstrip_def py_isspace_def)

lemma rstrip_id: "s = [] \<or> \<not> py_isspace (last s) \<Longrightarrow> rstrip s = s"
  by (cases s rule: rev_cases) (auto simp: rstrip_def)

lemma lstrip_id: "s = [] \<or> \<not> py_isspace (hd s) \<Longrightarrow> lstrip s = s"
  by (cases s) (auto simp: lstrip_def)

lemma strip_line: 
  assumes "s \<noteq> []" "\<not> py_isspace (hd s)" "\<not> py_isspace (last s)"
  shows "strip (s @ [CHR 0x0A]) = s" "strip s = s"
  using assms by (simp_all add: strip_def rstrip_newline rstrip_id lstrip_id)

lemma split_all_nonempty: "split_all c s \<noteq> []"
  by (induction s) (auto split: list.splits)

lemma split_all_field: "c \<notin> set v \<Longrightarrow> split_all c (v @ c # rest) = v # split_all c rest"
  by (induction v) (auto simp: split_all_nonempty split: list.splits)

lemma split_all_fields:
  "\<forall>v \<in> set vs. c \<notin> set v \<Longrightarrow> split_all c (concat (map (\<lambda>v. v @ [c]) vs)) = vs @ [[]]"
  by (induction vs) (auto simp: split_all_field)

lemma join_terminated: "vs \<noteq> [] \<Longrightarrow> join sep vs @ sep = concat (map (\<lambda>v. v @ sep) vs)"
  by (induction sep vs rule: join.induct) auto

lemma takeWhile_absent: "c \<notin> set v \<Longrightarrow> takeWhile (\<lambda>x. x \<noteq> c) v = v"
  by (induction v) auto

lemma takeWhile_until: "c \<notin> set k \<Longrightarrow> takeWhile (\<lambda>x. x \<noteq> c) (k @ c # r) = k"
  by (induction k) auto

lemma dropWhile_until: "c \<notin> set k \<Longrightarrow> dropWhile (\<lambda>x. x \<noteq> c) (k @ c # r) = c # r"
  by (induction k) auto

lemma basename_id:
  assumes "CHR ''/'' \<notin> set v"
  shows "basename v = v"
  using assms by (simp add: basename_def takeWhile_absent)




lemma parse_desktops_values:
  assumes "vs \<noteq> []" "list_all storable_value vs"
  shows "parse_desktops (join '';'' vs @ '';'') = vs"
proof -
  have semi: "\<forall>v \<in> set vs. CHR '';'' \<notin> set v"
    using assms(2) by (auto simp: list_all_iff storable_value_def)
  have "join '';'' vs @ '';'' = concat (map (\<lambda>v. v @ [CHR '';'']) vs)"
    using join_terminated[OF assms(1), of "'';''"] by simp
  then have "split_all CHR '';'' (join '';'' vs @ '';'') = vs @ [[]]"
    using split_all_fields[OF semi] by simp
  moreover have "filter (\<lambda>d. d \<noteq> []) vs = vs"
    using assms(2) by (auto simp: list_all_iff storable_value_def filter_id_conv)
  moreover have "map (\<lambda>d. basename (strip d)) vs = vs"
  proof (rule map_idI)
    fix v assume "v \<in> set vs"
    with assms(2) have sv: "storable_value v" by (simp add: list_all_iff)
    then have "strip v = v" by (simp add: storable_value_def strip_line)
    moreover from sv have "basename v = v"
      by (intro basename_id) (auto simp: storable_value_def list_all_iff)
    ultimately show "basename (strip v) = v" by simp
  qed
  ultimately show ?thesis by (simp add: parse_desktops_def)
qed

lemma classify_entry:
  assumes "storable_entry (k, vs)"
  shows "classify_line (format_entry (k, vs)) = Entry k vs"
proof -
  let ?line = "k @ ''='' @ join '';'' vs @ '';''"
  from assms have k: "storable_key k" and vs: "vs \<noteq> []" "list_all storable_value vs"
    by (simp_all add: storable_entry_def)
  have ne: "?line \<noteq> []" by simp
  have lst: "last ?line = CHR '';''" by simp
  have sp: "\<not> py_isspace (hd ?line)"
    using k by (cases k) (auto simp: storable_key_def py_isspace_def)
  have sl: "\<not> py_isspace (last ?line)" by (simp add: py_isspace_def)
  have "format_entry (k, vs) = ?line @ [CHR 0x0A]" by (simp add: format_entry_def)
  then have st: "strip (format_entry (k, vs)) = ?line"
    using strip_line(1)[OF ne sp sl] by simp
  have nohash: "hd ?line \<noteq> CHR ''#''" using k by (cases k) (auto simp: storable_key_def)
  have eq: "CHR ''='' \<notin> set k" using k by (auto simp: storable_key_def list_all_iff)
  then have tw: "takeWhile (\<lambda>x. x \<noteq> CHR ''='') ?line = k"
    and dw: "dropWhile (\<lambda>x. x \<noteq> CHR ''='') ?line = ''='' @ join '';'' vs @ '';''"
    by (simp_all add: takeWhile_until dropWhile_until)
  have s1: "split1 CHR ''='' ?line = Some (k, join '';'' vs @ '';'')"
    unfolding split1_def tw dw by simp
  have rk: "rstrip k = k" using k by (intro rstrip_id) (auto simp: storable_key_def)
  show ?thesis
    unfolding classify_line_def st Let_def
    using ne nohash lst s1 rk parse_desktops_values[OF vs] by simp
qed

lemma classify_header: "classify_line (format_section (Some s)) = Header s"
proof -
  let ?line = "''['' @ s @ '']''"
  have ne: "?line \<noteq> []" by simp
  have "format_section (Some s) = ?line @ [CHR 0x0A]" by (simp add: format_section_def)
  moreover have "strip (?line @ [CHR 0x0A]) = ?line"
    by (rule strip_line(1)) (simp_all add: py_isspace_def)
  ultimately have st: "strip (format_section (Some s)) = ?line" by simp
  show ?thesis unfolding classify_line_def st Let_def by simp
qed

lemma classify_blank: "classify_line [CHR 0x0A] = Skipped"
  by (simp add: classify_line_def strip_def rstrip_def lstrip_def py_isspace_def)




lemma update_append_absent:
  "k \<notin> fst ` set A \<Longrightarrow> AList.update k v (A @ B) = A @ AList.update k v B"
  by (induction A) auto

lemma update_new: "k \<notin> fst ` set al \<Longrightarrow> AList.update k v al = al @ [(k, v)]"
  by (induction al) auto

lemma map_of_append_absent: "k \<notin> fst ` set A \<Longrightarrow> map_of (A @ B) k = map_of B k"
  by (induction A) auto

lemma set_entry_new_section:
  "sec \<notin> fst ` set A \<Longrightarrow> set_entry A sec k v = A @ [(sec, [(k, v)])]"
proof -
  assume a: "sec \<notin> fst ` set A"
  then have "map_of A sec = None" by (simp add: map_of_eq_None_iff)
  with a show ?thesis by (simp add: set_entry_def update_new)
qed

lemma set_entry_last_section:
  assumes "sec \<notin> fst ` set A" "k \<notin> fst ` set es"
  shows "set_entry (A @ [(sec, es)]) sec k v = A @ [(sec, es @ [(k, v)])]"
proof -
  have "map_of (A @ [(sec, es)]) sec = Some es"
    using map_of_append_absent[OF assms(1), of "[(sec, es)]"] by simp
  then show ?thesis
    using assms by (simp add: set_entry_def update_append_absent update_new)
qed

lemma parse_entry_line:
  assumes "storable_entry (k, vs)"
  shows "parse_line (sec, A) (format_entry (k, vs)) = (sec, set_entry A sec k vs)"
  using assms classify_entry[OF assms] by (simp add: storable_entry_def)

lemma parse_entries:
  assumes "Some s \<notin> fst ` set A" "distinct (map fst (es' @ es))" "list_all storable_entry es"
  shows "foldl parse_line (Some s, A @ [(Some s, es')]) (map format_entry es)
           = (Some s, A @ [(Some s, es' @ es)])"
  using assms
proof (induction es arbitrary: es')
  case Nil
  then show ?case by simp
next
  case (Cons e es)
  obtain k vs where e: "e = (k, vs)" by (cases e)
  from Cons.prems e have st: "storable_entry (k, vs)" and k: "k \<notin> fst ` set es'" by auto
  have d: "distinct (map fst ((es' @ [e]) @ es))" using Cons.prems(2) by simp
  from Cons.prems(3) have r: "list_all storable_entry es" by simp
  show ?case
    using Cons.IH[OF Cons.prems(1) d r] e
    by (simp add: parse_entry_line[OF st] set_entry_last_section[OF Cons.prems(1) k]
        del: parse_line.simps)
qed

lemma distinct_keys_sort: "distinct (map fst (sort_key fst es)) = distinct (map fst es)"
  by (induction es) (auto simp: distinct_insort_key)

lemma parse_section:
  assumes "Some s \<notin> fst ` set A" "es \<noteq> []" "distinct (map fst es)" "list_all storable_entry es"
  shows "foldl parse_line (sec0, A) (section_writes (Some s, es))
           = (Some s, A @ [(Some s, sort_key fst es)])"
proof -
  let ?es = "sort_key fst es"
  have all: "list_all storable_entry ?es" using assms(4) by (simp add: list_all_iff)
  then have f: "filter (\<lambda>kv. snd kv \<noteq> []) ?es = ?es"
    by (auto simp: list_all_iff storable_entry_def filter_id_conv)
  have d: "distinct (map fst ?es)" using assms(3) by (simp add: distinct_keys_sort)
  have "length ?es = length es" by simp
  with assms(2) obtain e rest where er: "?es = e # rest" by (cases ?es) auto
  obtain k vs where e: "e = (k, vs)" by (cases e)
  from all er e have st: "storable_entry (k, vs)" and r: "list_all storable_entry rest" by auto
  from d er have d': "distinct (map fst ([e] @ rest))" by simp
  have w: "section_writes (Some s, es) = format_section (Some s) # map format_entry (e # rest)"
    using assms(2) f er by (simp add: section_writes_def)
  have h: "parse_line (sec0, A) (format_section (Some s)) = (Some s, A)"
    by (simp add: classify_header)
  have "foldl parse_line (sec0, A) (section_writes (Some s, es))
          = foldl parse_line (Some s, A @ [(Some s, [e])]) (map format_entry rest)"
    unfolding w using e
    by (simp add: h parse_entry_line[OF st] set_entry_new_section[OF assms(1)]
        del: parse_line.simps)
  also have "\<dots> = (Some s, A @ [(Some s, [e] @ rest)])"
    by (rule parse_entries[OF assms(1) d' r])
  finally show ?thesis using er by simp
qed

lemma section_writes_storable:
  assumes "storable_section se" "snd se \<noteq> []" "distinct (map fst (snd se))" "fst se \<notin> fst ` set A"
  shows "foldl parse_line (sec0, A) (section_writes se)
           = (fst se, A @ [(fst se, sort_key fst (snd se))])"
proof -
  from assms(1) obtain s where s: "fst se = Some s" 
    by (auto simp: storable_section_def split: option.splits)
  then have se: "se = (Some s, snd se)" by (cases se) simp
  from assms(1) have l: "list_all storable_entry (snd se)" by (simp add: storable_section_def)
  show ?thesis
    using parse_section[OF _ assms(2,3) l, of s A sec0] assms(4) s se by metis
qed

lemma parse_sections:
  assumes "list_all storable_section T" "list_all (\<lambda>se. snd se \<noteq> []) T" "dict_of_dicts T"
    "fst ` set T \<inter> fst ` set A = {}"
  shows "snd (foldl parse_line (sec0, A) (concat (map section_writes T)))
           = A @ map (\<lambda>se. (fst se, sort_key fst (snd se))) T"
  using assms
proof (induction T arbitrary: sec0 A)
  case Nil
  then show ?case by simp
next
  case (Cons se T)
  from Cons.prems have a: "storable_section se" "snd se \<noteq> []" "distinct (map fst (snd se))"
    "fst se \<notin> fst ` set A"
    by (auto simp: dict_of_dicts_def)
  let ?A = "A @ [(fst se, sort_key fst (snd se))]"
  from Cons.prems have b: "list_all storable_section T" "list_all (\<lambda>se. snd se \<noteq> []) T"
    "dict_of_dicts T" "fst ` set T \<inter> fst ` set ?A = {}"
    by (auto simp: dict_of_dicts_def)
  show ?case
    using Cons.IH[OF b, of "fst se"] section_writes_storable[OF a, of sec0]
    by simp
qed


lemma set_join: "set (join sep vs) \<subseteq> set sep \<union> \<Union> (set ` set vs)"
  by (induction sep vs rule: join.induct) auto

lemma one_line_section:
  "list_all (\<lambda>c. c \<notin> set [CHR 0x0A, CHR 0x0D]) s \<Longrightarrow> one_line (format_section (Some s))"
  unfolding one_line_def format_section_def
  by (rule exI[of _ "''['' @ s @ '']''"]) (auto simp: list_all_iff)

lemma one_line_entry:
  assumes "storable_entry kv"
  shows "one_line (format_entry kv)"
proof -
  let ?l = "fst kv @ ''='' @ join '';'' (snd kv) @ '';''"
  have k: "CHR 0x0A \<notin> set (fst kv)" "CHR 0x0D \<notin> set (fst kv)"
    using assms by (auto simp: storable_entry_def storable_key_def list_all_iff)
  have v: "\<forall>v \<in> set (snd kv). CHR 0x0A \<notin> set v \<and> CHR 0x0D \<notin> set v"
    using assms by (auto simp: storable_entry_def storable_value_def list_all_iff)
  have j: "CHR 0x0A \<notin> set (join '';'' (snd kv))" "CHR 0x0D \<notin> set (join '';'' (snd kv))"
    using set_join[of "'';''" "snd kv"] v by auto
  have "format_entry kv = ?l @ [CHR 0x0A]" by (simp add: format_entry_def)
  moreover have "CHR 0x0A \<notin> set ?l" "CHR 0x0D \<notin> set ?l" using k j by auto
  ultimately show ?thesis unfolding one_line_def by blast
qed

lemma one_line_section_writes:
  assumes "storable_section se"
  shows "list_all one_line (section_writes se)"
proof -
  from assms obtain s where s: "fst se = Some s" "list_all (\<lambda>c. c \<notin> set [CHR 0x0A, CHR 0x0D]) s"
    by (auto simp: storable_section_def split: option.splits)
  from assms have "list_all storable_entry (snd se)" by (simp add: storable_section_def)
  then have "list_all one_line (map format_entry (filter (\<lambda>kv. snd kv \<noteq> []) (sort_key fst (snd se))))"
    by (auto simp: list_all_iff one_line_entry)
  with s show ?thesis by (simp add: section_writes_def one_line_section)
qed

lemma one_line_writes:
  assumes "list_all storable_section T"
  shows "list_all one_line (associations_writes T)"
proof -
  have "list_all one_line (concat (map section_writes T))"
    using assms by (induction T) (auto simp: one_line_section_writes)
  moreover have "one_line [CHR 0x0A]" by (simp add: one_line_def)
  ultimately show ?thesis by (simp add: associations_writes_def)
qed

lemma remove_empty_nonempty: "list_all (\<lambda>se. snd se \<noteq> []) (remove_empty_associations assocs)"
  by (auto simp: remove_empty_associations_def list_all_iff)

lemma parse_writes:
  assumes "storable T" "list_all (\<lambda>se. snd se \<noteq> []) T"
  shows "parse_associations (associations_writes T) = map (\<lambda>se. (fst se, sort_key fst (snd se))) T"
proof -
  from assms(1) have a: "list_all storable_section T" "dict_of_dicts T"
    by (simp_all add: storable_def)
  have e: "fst ` set T \<inter> fst ` set ([] :: assocs) = {}" by simp
  have p: "snd (foldl parse_line (None, []) (concat (map section_writes T)))
             = map (\<lambda>se. (fst se, sort_key fst (snd se))) T"
    using parse_sections[OF a(1) assms(2) a(2) e, of None] by simp
  obtain sec B where st: "foldl parse_line (None, []) (concat (map section_writes T)) = (sec, B)"
    by (cases "foldl parse_line (None, []) (concat (map section_writes T))")
  have "parse_line (sec, B) [CHR 0x0A] = (sec, B)" by (simp add: classify_blank)
  with st p show ?thesis
    by (simp add: parse_associations_def associations_writes_def del: parse_line.simps)
qed

lemma map_of_sorted_entries:
  "distinct (map fst es) \<Longrightarrow> map_of (sort_key fst es) = map_of es"
  by (subst map_of_inject_set) (simp_all add: distinct_keys_sort)

lemma table_get_sorted:
  assumes "dict_of_dicts T"
  shows "table_get (map (\<lambda>se. (fst se, sort_key fst (snd se))) T) sec key = table_get T sec key"
proof -
  have m: "map_of (map (\<lambda>se. (fst se, sort_key fst (snd se))) T) sec
          = map_option (sort_key fst) (map_of T sec)"
    by (induction T) auto
  show ?thesis
  proof (cases "map_of T sec")
    case None
    with m show ?thesis by (simp add: table_get_def)
  next
    case (Some es)
    then have "(sec, es) \<in> set T" by (rule map_of_SomeD)
    with assms have "distinct (map fst es)" by (auto simp: dict_of_dicts_def list_all_iff)
    with m Some show ?thesis by (simp add: table_get_def map_of_sorted_entries)
  qed
qed

text \<open>
  C4 as stated fails: bare values are not enough, the keys must fit the format too. A
  MIME-type with a parameter holds \<open>=\<close>, and the line written for it is split at its
  first \<open>=\<close> when it is read back.
\<close>

theorem save_then_load_counterexample:
  "remove_empty_associations parameter_key_table = parameter_key_table
   \<and> load_associations (fst (save_associations Map.empty user_list_path parameter_key_table))
         user_list_path
       = [(Some ''Added Associations'', [(''text/plain;charset'', [''utf-8=vim.desktop''])])]
   \<and> table_get
         (load_associations (fst (save_associations Map.empty user_list_path parameter_key_table))
            user_list_path)
         (Some ''Added Associations'') ''text/plain;charset=utf-8'' = None"
  by code_simp

text \<open>
  C4, amended. When the table, pruned of its empty keys and sections, is storable
  (section names, keys and values that the format can hold), saving it and loading the
  file gives the pruned table with the keys of each section in sorted order: the
  sections, in their order, and for every section and key the same list of values as in
  the pruned table.
\<close>

theorem save_then_load:
  assumes "storable (remove_empty_associations assocs)"
  shows "load_associations (fst (save_associations fs path assocs)) path
           = map (\<lambda>se. (fst se, sort_key fst (snd se))) (remove_empty_associations assocs)
       \<and> table_get (load_associations (fst (save_associations fs path assocs)) path) sec key
           = table_get (remove_empty_associations assocs) sec key"
proof -
  let ?T = "remove_empty_associations assocs"
  have l: "load_associations (fst (save_associations fs path assocs)) path
           = map (\<lambda>se. (fst se, sort_key fst (snd se))) ?T"
  proof (cases "?T = []")
    case True
    then show ?thesis by (simp add: save_associations_def load_associations_def Let_def)
  next
    case False
    from assms have "list_all storable_section ?T" by (simp add: storable_def)
    then have "readlines (universal_newlines (associations_text ?T)) = associations_writes ?T"
      unfolding associations_text_def by (intro read_writes one_line_writes)
    with False show ?thesis
      by (simp add: save_associations_def load_associations_def Let_def
          parse_writes[OF assms remove_empty_nonempty])
  qed
  from assms have "dict_of_dicts ?T" by (simp add: storable_def)
  from table_get_sorted[OF this] l show ?thesis by simp
qed

theorem save_then_load_witness:
  "storable (remove_empty_associations unsorted_table)
   \<and> load_associations (fst (save_associations Map.empty user_list_path unsorted_table))
         user_list_path
       = [(Some ''Added Associations'',
             [(''image/png'', [''feh.desktop'']), (''text/plain'', [''vim.desktop'', ''emacs.desktop''])]),
          (Some ''Default Applications'', [(''text/plain'', [''vim.desktop''])])]"
proof -
  have st: "storable (remove_empty_associations unsorted_table)"
    by code_simp
  have r: "map (\<lambda>se. (fst se, sort_key fst (snd se))) (remove_empty_associations unsorted_table)
       = [(Some ''Added Associations'',
             [(''image/png'', [''feh.desktop'']), (''text/plain'', [''vim.desktop'', ''emacs.desktop''])]),
          (Some ''Default Applications'', [(''text/plain'', [''vim.desktop''])])]"
    by code_simp
  from save_then_load[OF st, of Map.empty user_list_path] r st show ?thesis by simp
qed

end
